theory Spec2Isabelle
  imports Main "HOL-Library.Sublist"
begin

section \<open>Human3.6M preparation: frames and bounding boxes\<close>

text \<open>
  A shallow embedding of \<^verbatim>\<open>src/datasets/extract_frames_and_boxes_h36m.py\<close>.
  The functions of the script keep their names. What the script gets from NumPy, h5py,
  imageio, pathlib and os is modelled next to the place that calls it, each with the
  Python expression it stands for.
\<close>

subsection \<open>Errors\<close>

text \<open>The Python exceptions that the modelled calls can raise.\<close>

datatype error =
  IndexError
  | ValueError
  | OSError
  | FileExistsError
  | IsADirectoryError

subsection \<open>Two-dimensional arrays\<close>

text \<open>
  A 2-D NumPy array: \<open>nrows\<close> is \<^verbatim>\<open>shape[0]\<close>, \<open>ncols\<close> is \<^verbatim>\<open>shape[1]\<close>, and
  \<open>item a r c\<close> is \<^verbatim>\<open>a[r, c]\<close>. Only indices inside the shape are ever read. The mask
  datasets of the annotation files are numeric matrices; their elements are integers here.
\<close>

record ndarray =
  nrows :: nat
  ncols :: nat
  item :: "nat \<Rightarrow> nat \<Rightarrow> int"

text \<open>\<^verbatim>\<open>a.T\<close>\<close>

definition T :: "ndarray \<Rightarrow> ndarray" where
  "T a = \<lparr>nrows = ncols a, ncols = nrows a, item = (\<lambda>r c. item a c r)\<rparr>"

text \<open>An array given by the list of its rows (for concrete arrays).\<close>

definition of_rows :: "int list list \<Rightarrow> ndarray" where
  "of_rows rs = \<lparr>nrows = length rs,
                 ncols = (case rs of [] \<Rightarrow> 0 | r # _ \<Rightarrow> length r),
                 item = (\<lambda>r c. rs ! r ! c)\<rparr>"

text \<open>\<^verbatim>\<open>np.any(mask, axis=0)\<close>: one truth value per column.\<close>

definition np_any_axis0 :: "ndarray \<Rightarrow> bool list" where
  "np_any_axis0 msk =
     map (\<lambda>c. list_ex (\<lambda>r. item msk r c \<noteq> 0) [0..<nrows msk]) [0..<ncols msk]"

text \<open>\<^verbatim>\<open>np.any(mask, axis=1)\<close>: one truth value per row.\<close>

definition np_any_axis1 :: "ndarray \<Rightarrow> bool list" where
  "np_any_axis1 msk =
     map (\<lambda>r. list_ex (\<lambda>c. item msk r c \<noteq> 0) [0..<ncols msk]) [0..<nrows msk]"

text \<open>\<^verbatim>\<open>np.nonzero(v)[0]\<close> of a 1-D array: the indices of its true entries, ascending.\<close>

definition np_nonzero :: "bool list \<Rightarrow> nat list" where
  "np_nonzero v = filter (\<lambda>i. v ! i) [0..<length v]"

text \<open>
  \<^verbatim>\<open>v[i]\<close> for one index of a 1-D array: a negative index counts from the end, and an
  index outside the array raises \<^verbatim>\<open>IndexError\<close>.
\<close>

definition np_index :: "'a list \<Rightarrow> int \<Rightarrow> error + 'a" where
  "np_index v i =
     (if 0 \<le> i \<and> i < int (length v) then Inr (v ! nat i)
      else if i < 0 \<and> - int (length v) \<le> i then Inr (v ! nat (int (length v) + i))
      else Inl IndexError)"

text \<open>\<^verbatim>\<open>lo, hi = v[[0, -1]]\<close>: the first and the last entry.\<close>

definition first_last :: "'a list \<Rightarrow> error + ('a \<times> 'a)" where
  "first_last v =
     (case np_index v 0 of
        Inl e \<Rightarrow> Inl e
      | Inr lo \<Rightarrow> (case np_index v (- 1) of Inl e \<Rightarrow> Inl e | Inr hi \<Rightarrow> Inr (lo, hi)))"

subsection \<open>Single precision\<close>

text \<open>
  The boxes are stored in an array of \<^verbatim>\<open>dtype=np.float32\<close>. Every number stored there
  comes from an integer, and a float32 nearest to an integer is itself an integer, so a
  stored value is represented by the integer it denotes. \<open>float32\<close> is the conversion
  at the assignment: 24 significant bits, round to nearest, ties to even. (Array sizes are
  far below the float32 overflow threshold, so infinity does not arise.)
\<close>

fun bit_length :: "nat \<Rightarrow> nat" where
  "bit_length n = (if n = 0 then 0 else Suc (bit_length (n div 2)))"

declare bit_length.simps [simp del]

definition float32_nat :: "nat \<Rightarrow> nat" where
  "float32_nat n =
     (if bit_length n \<le> 24 then n
      else let u = 2 ^ (bit_length n - 24); q = n div u; r = n mod u
           in (if u < 2 * r \<or> (2 * r = u \<and> odd q) then q + 1 else q) * u)"

definition float32 :: "int \<Rightarrow> int" where
  "float32 x = (if x < 0 then - int (float32_nat (nat (- x))) else int (float32_nat (nat x)))"

subsection \<open>From one mask to one box\<close>

text \<open>
  The body of the \<^verbatim>\<open>try\<close> (lines 40 to 42): the list on the right of the assignment
  to \<^verbatim>\<open>bboxes[i]\<close>, or the exception raised before it.
\<close>

definition bbox_try :: "ndarray \<Rightarrow> error + int list" where
  "bbox_try msk =
     (case first_last (np_nonzero (np_any_axis0 msk)) of
        Inl e \<Rightarrow> Inl e
      | Inr (xmin, xmax) \<Rightarrow>
          (case first_last (np_nonzero (np_any_axis1 msk)) of
             Inl e \<Rightarrow> Inl e
           | Inr (ymin, ymax) \<Rightarrow>
               Inr [int xmin, int ymin, int xmax - int xmin + 1, int ymax - int ymin + 1]))"

text \<open>
  The \<^verbatim>\<open>try\<close> with its handler: only \<^verbatim>\<open>IndexError\<close> is caught. The result is the
  row written to \<^verbatim>\<open>bboxes[i]\<close>, converted to float32 by the assignment.
\<close>

definition bbox_of_mask :: "ndarray \<Rightarrow> error + int list" where
  "bbox_of_mask msk =
     (case bbox_try msk of
        Inr row \<Rightarrow> Inr (map float32 row)
      | Inl IndexError \<Rightarrow> Inr (map float32 [0, 0, 0, 0])
      | Inl e \<Rightarrow> Inl e)"

subsection \<open>The annotation file\<close>

text \<open>
  What the script reads from an opened annotation file \<^verbatim>\<open>f\<close>: \<open>Masks f\<close> is
  \<^verbatim>\<open>f['Masks'][:, 0]\<close>, the object references of the masks in frame order, and
  \<open>refs f\<close> is the group \<^verbatim>\<open>f['#refs#']\<close>, from a reference to the stored matrix.
  A reference that the group does not resolve makes \<^verbatim>\<open>f['#refs#'][ref]\<close> raise
  (h5py: \<^verbatim>\<open>ValueError\<close>, invalid object reference).
\<close>

type_synonym ref = nat

record h5file =
  Masks :: "ref list"
  refs :: "ref \<rightharpoonup> ndarray"

definition deref :: "h5file \<Rightarrow> ref \<Rightarrow> error + ndarray" where
  "deref f ref = (case refs f ref of None \<Rightarrow> Inl ValueError | Some a \<Rightarrow> Inr a)"

text \<open>
  \<^verbatim>\<open>np.empty([n, 4], dtype=np.float32)\<close>: \<open>n\<close> rows of whatever the memory held;
  \<open>junk\<close> stands for that content.
\<close>

definition np_empty :: "(nat \<Rightarrow> int list) \<Rightarrow> nat \<Rightarrow> int list list" where
  "np_empty junk n = map junk [0..<n]"

text \<open>
  The loop of lines 37 to 44 from index \<open>i\<close> on. Line 38 is outside the \<^verbatim>\<open>try\<close>:
  what it raises leaves the loop.
\<close>

fun bboxes_loop :: "h5file \<Rightarrow> nat \<Rightarrow> ref list \<Rightarrow> int list list \<Rightarrow> error + int list list" where
  "bboxes_loop f i [] bboxes = Inr bboxes"
| "bboxes_loop f i (ref # rest) bboxes =
     (case deref f ref of
        Inl e \<Rightarrow> Inl e
      | Inr a \<Rightarrow>
          (case bbox_of_mask (T a) of
             Inl e \<Rightarrow> Inl e
           | Inr row \<Rightarrow> bboxes_loop f (Suc i) rest (bboxes[i := row])))"

text \<open>Lines 35 to 44: the array \<^verbatim>\<open>bboxes\<close> after the loop.\<close>

definition decode :: "(nat \<Rightarrow> int list) \<Rightarrow> h5file \<Rightarrow> error + int list list" where
  "decode junk f = bboxes_loop f 0 (Masks f) (np_empty junk (length (Masks f)))"

text \<open>The nonzero pixels of a mask, as (row, column) pairs.\<close>

definition nonzero_pixels :: "ndarray \<Rightarrow> (nat \<times> nat) list" where
  "nonzero_pixels msk =
     concat (map (\<lambda>r. map (\<lambda>c. (r, c)) (filter (\<lambda>c. item msk r c \<noteq> 0) [0..<ncols msk]))
                 [0..<nrows msk])"

text \<open>
  The nonzero pixels of a mask span the columns \<open>c0\<close> to \<open>c1\<close> and the rows \<open>r0\<close>
  to \<open>r1\<close>: each of the four lines holds a nonzero pixel, and no nonzero pixel lies
  outside them.
\<close>

definition spans :: "ndarray \<Rightarrow> nat \<Rightarrow> nat \<Rightarrow> nat \<Rightarrow> nat \<Rightarrow> bool" where
  "spans msk c0 c1 r0 r1 \<longleftrightarrow>
     (let px = nonzero_pixels msk
      in c0 \<in> snd ` set px \<and> c1 \<in> snd ` set px \<and> r0 \<in> fst ` set px \<and> r1 \<in> fst ` set px
         \<and> (\<forall>(r, c)\<in>set px. c0 \<le> c \<and> c \<le> c1 \<and> r0 \<le> r \<and> r \<le> r1))"

subsection \<open>Paths\<close>

text \<open>
  A path is the list of its components (\<^verbatim>\<open>pathlib.PurePath.parts\<close> below a fixed
  anchor); components are nonempty and contain no separator.
\<close>

type_synonym path = "string list"

text \<open>\<^verbatim>\<open>os.path.basename(p)\<close> and \<^verbatim>\<open>pathlib.Path(p).name\<close>\<close>

definition basename :: "path \<Rightarrow> string" where
  "basename p = (if p = [] then [] else last p)"

text \<open>\<^verbatim>\<open>pathlib.Path(p).parents[k]\<close>: a path of \<open>n\<close> components has \<open>n\<close> parents.\<close>

definition parents :: "path \<Rightarrow> nat \<Rightarrow> error + path" where
  "parents p k = (if k < length p then Inr (take (length p - Suc k) p) else Inl IndexError)"

text \<open>\<^verbatim>\<open>str(p)\<close>\<close>

fun path_str :: "path \<Rightarrow> string" where
  "path_str [] = ''.''"
| "path_str [c] = c"
| "path_str (c # d # cs) = c @ ''/'' @ path_str (d # cs)"

text \<open>\<^verbatim>\<open>name.rfind('.')\<close>, with \<open>None\<close> for Python's -1.\<close>

definition rfind_dot :: "string \<Rightarrow> nat option" where
  "rfind_dot name =
     (case filter (\<lambda>i. name ! i = CHR ''.'') (rev [0..<length name]) of
        [] \<Rightarrow> None
      | i # _ \<Rightarrow> Some i)"

text \<open>\<^verbatim>\<open>pathlib.Path(p).stem\<close>, from the final component.\<close>

definition stem :: "string \<Rightarrow> string" where
  "stem name =
     (case rfind_dot name of
        None \<Rightarrow> name
      | Some i \<Rightarrow> if 0 < i \<and> i < length name - 1 then take i name else name)"

subsection \<open>Formatting the frame number\<close>

definition digit_char :: "nat \<Rightarrow> char" where
  "digit_char d = ''0123456789'' ! d"

text \<open>The decimal digits of a number, most significant first.\<close>

fun digits :: "nat \<Rightarrow> string" where
  "digits n = (if n < 10 then [digit_char n] else digits (n div 10) @ [digit_char (n mod 10)])"

declare digits.simps [simp del]

text \<open>\<^verbatim>\<open>f'{i_frame:06d}'\<close>: padded with zeros on the left to six characters.\<close>

definition fmt_06d :: "nat \<Rightarrow> string" where
  "fmt_06d n = replicate (6 - length (digits n)) CHR ''0'' @ digits n"

text \<open>\<^verbatim>\<open>f'frame_{i_frame:06d}.jpg'\<close>\<close>

definition dst_filename :: "nat \<Rightarrow> string" where
  "dst_filename i_frame = ''frame_'' @ fmt_06d i_frame @ ''.jpg''"

subsection \<open>The file system and the console\<close>

text \<open>
  A decoded video frame is the list of its bytes. What a file holds is what the script
  reads from it or writes to it: an annotation file, a video with its frames in order, a
  saved array, a written image.
\<close>

type_synonym frame = "nat list"

datatype content =
  Mat h5file
  | Mp4 "frame list"
  | Npy "int list list"
  | Jpg frame

datatype node = Dir | File content

text \<open>
  The state the script acts on: the file system, the lines printed so far, and the paths
  of the files written so far by \<^verbatim>\<open>np.save\<close> and \<^verbatim>\<open>imageio.imwrite\<close>, oldest first.
\<close>

record world =
  fs :: "path \<rightharpoonup> node"
  stdout :: "string list"
  written :: "path list"

definition print_line :: "string \<Rightarrow> world \<Rightarrow> world" where
  "print_line l w = w\<lparr>stdout := stdout w @ [l]\<rparr>"

text \<open>
  \<^verbatim>\<open>os.makedirs(p, exist_ok=True)\<close>: every missing directory on the way to \<open>p\<close> is
  created, \<open>p\<close> included; a file in the way raises.
\<close>

fun mkdirs :: "path list \<Rightarrow> (path \<rightharpoonup> node) \<Rightarrow> error + (path \<rightharpoonup> node)" where
  "mkdirs [] t = Inr t"
| "mkdirs (d # ds) t =
     (case t d of
        Some (File c) \<Rightarrow> Inl FileExistsError
      | Some Dir \<Rightarrow> mkdirs ds t
      | None \<Rightarrow> mkdirs ds (t(d \<mapsto> Dir)))"

definition makedirs :: "path \<Rightarrow> (path \<rightharpoonup> node) \<Rightarrow> error + (path \<rightharpoonup> node)" where
  "makedirs p t = mkdirs (tl (prefixes p)) t"

text \<open>\<^verbatim>\<open>h5py.File(p, 'r')\<close>\<close>

definition h5py_File :: "(path \<rightharpoonup> node) \<Rightarrow> path \<Rightarrow> error + h5file" where
  "h5py_File t p = (case t p of Some (File (Mat f)) \<Rightarrow> Inr f | _ \<Rightarrow> Inl OSError)"

text \<open>\<^verbatim>\<open>np.save(p, arr)\<close>: the file is opened for writing, so an existing file is replaced.\<close>

definition np_save :: "path \<Rightarrow> int list list \<Rightarrow> world \<Rightarrow> error option \<times> world" where
  "np_save p arr w =
     (case fs w p of
        Some Dir \<Rightarrow> (Some IsADirectoryError, w)
      | _ \<Rightarrow> (None, w\<lparr>fs := (fs w)(p \<mapsto> File (Npy arr)), written := written w @ [p]\<rparr>))"

text \<open>\<^verbatim>\<open>imageio.get_reader(p, 'ffmpeg')\<close>, by the frames it will deliver.\<close>

definition imageio_get_reader :: "(path \<rightharpoonup> node) \<Rightarrow> path \<Rightarrow> error + frame list" where
  "imageio_get_reader t p = (case t p of Some (File (Mp4 frames)) \<Rightarrow> Inr frames | _ \<Rightarrow> Inl OSError)"

text \<open>\<^verbatim>\<open>imageio.imwrite(p, frame)\<close>\<close>

definition imwrite :: "path \<Rightarrow> frame \<Rightarrow> world \<Rightarrow> world" where
  "imwrite p frame w = w\<lparr>fs := (fs w)(p \<mapsto> File (Jpg frame)), written := written w @ [p]\<rparr>"

subsection \<open>extract\_bounding\_boxes\<close>

text \<open>Lines 46 and 47: \<^verbatim>\<open>dst_file_path\<close>.\<close>

definition dst_file_path :: "path \<Rightarrow> error + path" where
  "dst_file_path src_matfile_path =
     (let filename = basename src_matfile_path
      in case parents src_matfile_path 2 of
           Inl e \<Rightarrow> Inl e
         | Inr anc \<Rightarrow> Inr (anc @ [''BBoxes'', take (length filename - 4) filename @ ''.npy'']))"

text \<open>
  The function returns \<open>None\<close> when it returns normally and the exception otherwise,
  with the state it leaves behind.
\<close>

definition extract_bounding_boxes ::
  "(nat \<Rightarrow> int list) \<Rightarrow> path \<Rightarrow> world \<Rightarrow> error option \<times> world" where
  "extract_bounding_boxes junk src_matfile_path w =
     (let w1 = print_line (''Processing '' @ path_str src_matfile_path) w
      in case h5py_File (fs w1) src_matfile_path of
           Inl e \<Rightarrow> (Some e, w1)
         | Inr f \<Rightarrow>
             (case decode junk f of
                Inl e \<Rightarrow> (Some e, w1)
              | Inr bboxes \<Rightarrow>
                  (case dst_file_path src_matfile_path of
                     Inl e \<Rightarrow> (Some e, w1)
                   | Inr dst \<Rightarrow>
                       (case makedirs (butlast dst) (fs w1) of
                          Inl e \<Rightarrow> (Some e, w1)
                        | Inr t \<Rightarrow> np_save dst bboxes (w1\<lparr>fs := t\<rparr>)))))"

subsection \<open>extract\_frames\<close>

text \<open>Lines 55 and 56: \<^verbatim>\<open>dst_folder_path\<close>.\<close>

definition dst_folder_path :: "path \<Rightarrow> error + path" where
  "dst_folder_path src_video_path =
     (let video_name = stem (basename src_video_path)
      in case parents src_video_path 1 of
           Inl e \<Rightarrow> Inl e
         | Inr anc \<Rightarrow> Inr (anc @ [''Images'', video_name]))"

text \<open>The loop of lines 60 to 65 from frame index \<open>i_frame\<close> on.\<close>

fun frames_loop :: "path \<Rightarrow> nat \<Rightarrow> frame list \<Rightarrow> world \<Rightarrow> world" where
  "frames_loop dst i_frame [] w = w"
| "frames_loop dst i_frame (frame # rest) w =
     frames_loop dst (Suc i_frame) rest
       (if i_frame mod 5 = 0 \<or> i_frame mod 64 = 0
        then (let dst_path = dst @ [dst_filename i_frame]
              in if fs w dst_path = None then imwrite dst_path frame w else w)
        else w)"

definition extract_frames :: "path \<Rightarrow> world \<Rightarrow> error option \<times> world" where
  "extract_frames src_video_path w =
     (let w1 = print_line (''Processing '' @ path_str src_video_path) w
      in case dst_folder_path src_video_path of
           Inl e \<Rightarrow> (Some e, w1)
         | Inr dst \<Rightarrow>
             (case makedirs dst (fs w1) of
                Inl e \<Rightarrow> (Some e, w1)
              | Inr t \<Rightarrow>
                  (case imageio_get_reader t src_video_path of
                     Inl e \<Rightarrow> (Some e, w1\<lparr>fs := t\<rparr>)
                   | Inr frames \<Rightarrow> (None, frames_loop dst 0 frames (w1\<lparr>fs := t\<rparr>)))))"

subsection \<open>main\<close>

text \<open>
  How a run of the script ends: it returns, it leaves through \<^verbatim>\<open>sys.exit(n)\<close>, or an
  exception reaches the top.
\<close>

datatype outcome = Returned | SystemExit nat | Raised error

text \<open>
  \<^verbatim>\<open>pool.map\<close> and \<^verbatim>\<open>glob.glob\<close> belong to the standard library; \<open>main\<close> takes
  them as parameters: \<open>pool_map fn items\<close> acts on the state and may raise, and
  \<open>glob pattern\<close> lists the matching paths of a file system.
\<close>

definition main ::
  "((path \<Rightarrow> world \<Rightarrow> error option \<times> world) \<Rightarrow> path list \<Rightarrow> world \<Rightarrow> error option \<times> world)
   \<Rightarrow> (string \<Rightarrow> (path \<rightharpoonup> node) \<Rightarrow> path list)
   \<Rightarrow> (nat \<Rightarrow> int list) \<Rightarrow> (string \<rightharpoonup> string) \<Rightarrow> world \<Rightarrow> outcome \<times> world" where
  "main pool_map glob junk environ w =
     (case environ ''DATA_ROOT'' of
        None \<Rightarrow>
          (SystemExit 1,
           print_line ''Set the DATA_ROOT environment variable to the parent dir of the h36m directory.'' w)
      | Some data_root \<Rightarrow>
          (let bbox_paths = glob (data_root @ ''/h36m/**/ground_truth_bb/*.mat'') (fs w)
           in case pool_map (extract_bounding_boxes junk) bbox_paths w of
                (Some e, w1) \<Rightarrow> (Raised e, w1)
              | (None, w1) \<Rightarrow>
                  (let video_paths = glob (data_root @ ''/h36m/**/Videos/*.mp4'') (fs w1)
                   in case pool_map extract_frames video_paths w1 of
                        (Some e, w2) \<Rightarrow> (Raised e, w2)
                      | (None, w2) \<Rightarrow> (Returned, w2))))"

subsection \<open>Concrete inputs\<close>

text \<open>An annotation file with two masks: the first all zero, the second with two pixels set.\<close>

definition two_masks :: h5file where
  "two_masks = \<lparr>Masks = [5, 3],
                 refs = [5 \<mapsto> of_rows [[0, 0], [0, 0], [0, 0]], 3 \<mapsto> of_rows [[0, 0, 0], [1, 1, 0]]]\<rparr>"

text \<open>
  A stored matrix of 16777218 rows and one column with one pixel set, in the last row but
  one; transposed, the mask is one row of 16777218 columns. The file holds this one mask.
\<close>

definition tall_mask :: ndarray where
  "tall_mask = \<lparr>nrows = 16777218, ncols = 1, item = (\<lambda>r c. if r = 16777217 then 1 else 0)\<rparr>"

definition one_tall_mask :: h5file where
  "one_tall_mask = \<lparr>Masks = [0], refs = [0 \<mapsto> tall_mask]\<rparr>"

text \<open>A mask of one row and 16777220 columns with its last pixel set.\<close>

definition wide_mask :: ndarray where
  "wide_mask = \<lparr>nrows = 1, ncols = 16777220, item = (\<lambda>r c. if c = 16777219 then 1 else 0)\<rparr>"

text \<open>An annotation file whose first reference is not resolved by the group.\<close>

definition dangling_masks :: h5file where
  "dangling_masks = \<lparr>Masks = [4, 3], refs = [3 \<mapsto> of_rows [[0, 0, 0], [1, 1, 0]]]\<rparr>"

text \<open>Some content for the memory that \<^verbatim>\<open>np.empty\<close> hands out.\<close>

definition sevens :: "nat \<Rightarrow> int list" where
  "sevens i = [7, 7, 7, 7]"

text \<open>
  A pool of one worker for concrete runs: the items in order, stopping at the first
  exception. A file search that finds nothing.
\<close>

fun sequential_map ::
  "(path \<Rightarrow> world \<Rightarrow> error option \<times> world) \<Rightarrow> path list \<Rightarrow> world \<Rightarrow> error option \<times> world" where
  "sequential_map fn [] w = (None, w)"
| "sequential_map fn (p # ps) w =
     (case fn p w of
        (Some e, w') \<Rightarrow> (Some e, w')
      | (None, w') \<Rightarrow> sequential_map fn ps w')"

definition no_matches :: "string \<Rightarrow> (path \<rightharpoonup> node) \<Rightarrow> path list" where
  "no_matches pattern t = []"

definition fresh_world :: world where
  "fresh_world = \<lparr>fs = Map.empty, stdout = [], written = []\<rparr>"

text \<open>
  A data directory with one annotation file, and an array file left by an earlier run at
  the place where its boxes go.
\<close>

definition mat_path :: path where
  "mat_path = [''h36m'', ''S1'', ''MySegmentsMat'', ''ground_truth_bb'', ''Directions.mat'']"

definition npy_path :: path where
  "npy_path = [''h36m'', ''S1'', ''BBoxes'', ''Directions.npy'']"

definition bbox_world :: "h5file \<Rightarrow> world" where
  "bbox_world f =
     \<lparr>fs = [[''h36m''] \<mapsto> Dir,
             [''h36m'', ''S1''] \<mapsto> Dir,
             [''h36m'', ''S1'', ''MySegmentsMat''] \<mapsto> Dir,
             [''h36m'', ''S1'', ''MySegmentsMat'', ''ground_truth_bb''] \<mapsto> Dir,
             [''h36m'', ''S1'', ''BBoxes''] \<mapsto> Dir,
             mat_path \<mapsto> File (Mat f),
             npy_path \<mapsto> File (Npy [[9, 9, 9, 9]])],
      stdout = [], written = []\<rparr>"

section \<open>Properties\<close>

subsection \<open>Selecting the first and last nonzero index\<close>


lemma first_last_eq:
  "first_last v = (if v = [] then Inl IndexError else Inr (hd v, last v))"
  by (cases v) (auto simp: first_last_def np_index_def hd_conv_nth last_conv_nth nat_diff_distrib)

lemma np_nonzero_map: "np_nonzero (map f [0..<n]) = filter f [0..<n]"
  unfolding np_nonzero_def by (rule filter_cong) auto

lemma np_nonzero_any0:
  "np_nonzero (np_any_axis0 m) = filter (\<lambda>c. \<exists>r<nrows m. item m r c \<noteq> 0) [0..<ncols m]"
  unfolding np_any_axis0_def np_nonzero_map
  by (simp add: list_ex_iff Bex_def)

lemma np_nonzero_any1:
  "np_nonzero (np_any_axis1 m) = filter (\<lambda>r. \<exists>c<ncols m. item m r c \<noteq> 0) [0..<nrows m]"
  unfolding np_any_axis1_def np_nonzero_map
  by (simp add: list_ex_iff Bex_def)

lemma bit_length_le: "bit_length n \<le> k \<longleftrightarrow> n < 2 ^ k"
proof (induction n arbitrary: k rule: bit_length.induct)
  case (1 n)
  show ?case
  proof (cases "n = 0")
    case True
    then show ?thesis by (simp add: bit_length.simps)
  next
    case False
    show ?thesis
    proof (cases k)
      case 0
      with False show ?thesis by (simp add: bit_length.simps)
    next
      case (Suc j)
      have "bit_length n \<le> Suc j \<longleftrightarrow> bit_length (n div 2) \<le> j"
        using False by (simp add: bit_length.simps)
      also have "\<dots> \<longleftrightarrow> n div 2 < 2 ^ j" using 1 False by simp
      also have "\<dots> \<longleftrightarrow> n < 2 ^ Suc j" by auto
      finally show ?thesis using Suc by simp
    qed
  qed
qed

lemma float32_nat_exact: "n \<le> 2 ^ 24 \<Longrightarrow> float32_nat n = n"
proof (cases "n < 2 ^ 24")
  case True
  then show ?thesis by (simp add: float32_nat_def bit_length_le)
next
  case False
  assume "n \<le> 2 ^ 24"
  with False have n: "n = 2 ^ 24" by simp
  have "bit_length n = 25"
  proof -
    have "bit_length n \<le> 25" by (simp add: bit_length_le n)
    moreover have "\<not> bit_length n \<le> 24" by (simp add: bit_length_le n)
    ultimately show ?thesis by simp
  qed
  then show ?thesis by (simp add: float32_nat_def n)
qed

lemma float32_exact: "0 \<le> x \<Longrightarrow> x \<le> 2 ^ 24 \<Longrightarrow> float32 x = x"
  using float32_nat_exact [of "nat x"] by (simp add: float32_def nat_le_iff)


lemma set_nonzero_pixels:
  "(r, c) \<in> set (nonzero_pixels m) \<longleftrightarrow> r < nrows m \<and> c < ncols m \<and> item m r c \<noteq> 0"
  by (auto simp: nonzero_pixels_def)

lemma sorted_hd_eq:
  assumes "sorted xs" "a \<in> set xs" "\<forall>x\<in>set xs. (a::nat) \<le> x"
  shows "hd xs = a"
proof (cases xs)
  case Nil
  with assms show ?thesis by simp
next
  case (Cons y ys)
  with assms have "y \<le> a" by auto
  moreover from Cons assms have "a \<le> y" by simp
  ultimately show ?thesis using Cons by simp
qed

lemma sorted_last_eq:
  assumes "sorted xs" "b \<in> set xs" "\<forall>x\<in>set xs. x \<le> (b::nat)"
  shows "last xs = b"
proof -
  from assms(2) have ne: "xs \<noteq> []" by auto
  then have "last xs \<in> set xs" by simp
  with assms(3) have "last xs \<le> b" by blast
  moreover have "b \<le> last xs"
    using assms(1,2) by (induction xs) auto
  ultimately show ?thesis by simp
qed

lemma first_last_filter:
  assumes "a < n" "P a" "b < n" "P b" "\<forall>x<n. P x \<longrightarrow> a \<le> x \<and> x \<le> b"
  shows "first_last (filter P [0..<n]) = Inr (a, b)"
proof -
  let ?xs = "filter P [0..<n]"
  have s: "sorted ?xs" by (simp add: sorted_wrt_filter)
  have a: "a \<in> set ?xs" and b: "b \<in> set ?xs" using assms by auto
  have "hd ?xs = a" using s a assms(5) by (intro sorted_hd_eq) auto
  moreover have "last ?xs = b" using s b assms(5) by (intro sorted_last_eq) auto
  moreover have "?xs \<noteq> []" using length_pos_if_in_set [OF a] by fastforce
  ultimately show ?thesis by (simp add: first_last_eq)
qed

lemma bbox_try_span:
  assumes c0: "c0 < ncols m" "\<exists>r<nrows m. item m r c0 \<noteq> 0"
    and c1: "c1 < ncols m" "\<exists>r<nrows m. item m r c1 \<noteq> 0"
    and r0: "r0 < nrows m" "\<exists>c<ncols m. item m r0 c \<noteq> 0"
    and r1: "r1 < nrows m" "\<exists>c<ncols m. item m r1 c \<noteq> 0"
    and inside: "\<forall>r<nrows m. \<forall>c<ncols m. item m r c \<noteq> 0 \<longrightarrow> c0 \<le> c \<and> c \<le> c1 \<and> r0 \<le> r \<and> r \<le> r1"
  shows "bbox_try m = Inr [int c0, int r0, int c1 - int c0 + 1, int r1 - int r0 + 1]"
proof -
  have x: "first_last (np_nonzero (np_any_axis0 m)) = Inr (c0, c1)"
    unfolding np_nonzero_any0 using c0 c1 inside by (intro first_last_filter) auto
  have y: "first_last (np_nonzero (np_any_axis1 m)) = Inr (r0, r1)"
    unfolding np_nonzero_any1 using r0 r1 inside by (intro first_last_filter) auto
  show ?thesis by (simp add: bbox_try_def x y)
qed

lemma bbox_try_all_zero:
  assumes "\<forall>r<nrows m. \<forall>c<ncols m. item m r c = 0"
  shows "bbox_try m = Inl IndexError"
proof -
  have "np_nonzero (np_any_axis0 m) = []"
    unfolding np_nonzero_any0 using assms by (auto simp: filter_empty_conv)
  then show ?thesis by (simp add: bbox_try_def first_last_eq)
qed

lemma bbox_try_error: "bbox_try m = Inl e \<Longrightarrow> e = IndexError"
  by (auto simp: bbox_try_def first_last_eq split: if_splits)

lemma bbox_of_mask_total: "\<exists>row. bbox_of_mask m = Inr row"
proof (cases "bbox_try m")
  case (Inl e)
  then show ?thesis using bbox_try_error [OF Inl] by (simp add: bbox_of_mask_def)
next
  case (Inr row)
  then show ?thesis by (simp add: bbox_of_mask_def)
qed

lemma float32_zero: "float32 0 = 0"
  by (simp add: float32_exact)

lemma bbox_of_mask_all_zero:
  assumes "\<forall>r<nrows m. \<forall>c<ncols m. item m r c = 0"
  shows "bbox_of_mask m = Inr [0, 0, 0, 0]"
  by (simp add: bbox_of_mask_def bbox_try_all_zero [OF assms] float32_zero)


subsection \<open>Spans and the decoding loop\<close>

lemma snd_nonzero_pixels:
  "c \<in> snd ` set (nonzero_pixels m) \<longleftrightarrow> c < ncols m \<and> (\<exists>r<nrows m. item m r c \<noteq> 0)"
proof -
  have "c \<in> snd ` set (nonzero_pixels m) \<longleftrightarrow> (\<exists>r. (r, c) \<in> set (nonzero_pixels m))"
    by force
  then show ?thesis unfolding set_nonzero_pixels by blast
qed

lemma fst_nonzero_pixels:
  "r \<in> fst ` set (nonzero_pixels m) \<longleftrightarrow> r < nrows m \<and> (\<exists>c<ncols m. item m r c \<noteq> 0)"
proof -
  have "r \<in> fst ` set (nonzero_pixels m) \<longleftrightarrow> (\<exists>c. (r, c) \<in> set (nonzero_pixels m))"
    by force
  then show ?thesis unfolding set_nonzero_pixels by blast
qed

lemma all_nonzero_pixels:
  "(\<forall>(r, c)\<in>set (nonzero_pixels m). P r c) \<longleftrightarrow>
   (\<forall>r<nrows m. \<forall>c<ncols m. item m r c \<noteq> 0 \<longrightarrow> P r c)"
proof -
  have "(\<forall>(r, c)\<in>set (nonzero_pixels m). P r c) \<longleftrightarrow>
        (\<forall>r c. (r, c) \<in> set (nonzero_pixels m) \<longrightarrow> P r c)"
    by auto
  then show ?thesis unfolding set_nonzero_pixels by blast
qed

lemma spans_iff:
  "spans m c0 c1 r0 r1 \<longleftrightarrow>
     (c0 < ncols m \<and> (\<exists>r<nrows m. item m r c0 \<noteq> 0)) \<and>
     (c1 < ncols m \<and> (\<exists>r<nrows m. item m r c1 \<noteq> 0)) \<and>
     (r0 < nrows m \<and> (\<exists>c<ncols m. item m r0 c \<noteq> 0)) \<and>
     (r1 < nrows m \<and> (\<exists>c<ncols m. item m r1 c \<noteq> 0)) \<and>
     (\<forall>r<nrows m. \<forall>c<ncols m. item m r c \<noteq> 0 \<longrightarrow> c0 \<le> c \<and> c \<le> c1 \<and> r0 \<le> r \<and> r \<le> r1)"
  unfolding spans_def Let_def snd_nonzero_pixels fst_nonzero_pixels all_nonzero_pixels ..

lemma bbox_try_spans:
  "spans m c0 c1 r0 r1 \<Longrightarrow>
   bbox_try m = Inr [int c0, int r0, int c1 - int c0 + 1, int r1 - int r0 + 1]"
  unfolding spans_iff by (intro bbox_try_span) blast+

lemma spans_bounds:
  "spans m c0 c1 r0 r1 \<Longrightarrow> c0 \<le> c1 \<and> c1 < ncols m \<and> r0 \<le> r1 \<and> r1 < nrows m"
  unfolding spans_iff by blast

lemma nonzero_pixels_empty:
  "nonzero_pixels m = [] \<longleftrightarrow> (\<forall>r<nrows m. \<forall>c<ncols m. item m r c = 0)"
proof -
  have "nonzero_pixels m = [] \<longleftrightarrow> set (nonzero_pixels m) = {}" by simp
  also have "\<dots> \<longleftrightarrow> (\<forall>r c. (r, c) \<notin> set (nonzero_pixels m))"
    by (simp only: set_eq_iff empty_iff split_paired_All simp_thms)
  also have "\<dots> \<longleftrightarrow> (\<forall>r<nrows m. \<forall>c<ncols m. item m r c = 0)"
    unfolding set_nonzero_pixels by blast
  finally show ?thesis .
qed

lemma spans_exist:
  assumes "nonzero_pixels m \<noteq> []"
  shows "\<exists>c0 c1 r0 r1. spans m c0 c1 r0 r1"
proof -
  let ?px = "set (nonzero_pixels m)"
  let ?C = "snd ` ?px" and ?R = "fst ` ?px"
  have ne: "?C \<noteq> {}" "?R \<noteq> {}" using assms by simp_all
  have fin: "finite ?C" "finite ?R" by simp_all
  have mem: "Min ?C \<in> ?C" "Max ?C \<in> ?C" "Min ?R \<in> ?R" "Max ?R \<in> ?R"
    using Min_in [OF fin(1) ne(1)] Max_in [OF fin(1) ne(1)]
      Min_in [OF fin(2) ne(2)] Max_in [OF fin(2) ne(2)] by blast+
  have "Min ?C \<le> c \<and> c \<le> Max ?C \<and> Min ?R \<le> r \<and> r \<le> Max ?R"
    if "(r, c) \<in> ?px" for r c
  proof -
    from that have "c \<in> ?C" "r \<in> ?R" by (force)+
    then show ?thesis
      using Min_le [OF fin(1)] Max_ge [OF fin(1)] Min_le [OF fin(2)] Max_ge [OF fin(2)] by blast
  qed
  then have "\<forall>(r, c)\<in>?px. Min ?C \<le> c \<and> c \<le> Max ?C \<and> Min ?R \<le> r \<and> r \<le> Max ?R"
    by blast
  with mem have "spans m (Min ?C) (Max ?C) (Min ?R) (Max ?R)"
    unfolding spans_def Let_def by blast
  then show ?thesis by blast
qed

lemma bbox_of_mask_spans:
  assumes "spans m c0 c1 r0 r1" "ncols m \<le> 2 ^ 24" "nrows m \<le> 2 ^ 24"
  shows "bbox_of_mask m = Inr [int c0, int r0, int c1 - int c0 + 1, int r1 - int r0 + 1]"
proof -
  from spans_bounds [OF assms(1)] assms(2,3)
  have b: "c0 \<le> c1" "c1 < 2 ^ 24" "r0 \<le> r1" "r1 < 2 ^ 24" by auto
  have "float32 (int c0) = int c0" "float32 (int r0) = int r0"
    "float32 (int c1 - int c0 + 1) = int c1 - int c0 + 1"
    "float32 (int r1 - int r0 + 1) = int r1 - int r0 + 1"
    using b by (auto intro!: float32_exact)
  then show ?thesis by (simp add: bbox_of_mask_def bbox_try_spans [OF assms(1)])
qed

lemma bbox_of_mask_general:
  assumes "spans m c0 c1 r0 r1"
  shows "bbox_of_mask m = Inr (map float32 [int c0, int r0, int c1 - int c0 + 1, int r1 - int r0 + 1])"
  by (simp add: bbox_of_mask_def bbox_try_spans [OF assms(1)])

lemma bboxes_loop_resolved:
  assumes "\<forall>ref\<in>set rs. refs f ref \<noteq> None" "i + length rs \<le> length bb"
  shows "\<exists>rows. bboxes_loop f i rs bb = Inr (take i bb @ rows @ drop (i + length rs) bb)
       \<and> length rows = length rs
       \<and> (\<forall>k<length rs. \<forall>a. refs f (rs ! k) = Some a \<longrightarrow> bbox_of_mask (T a) = Inr (rows ! k))"
  using assms
proof (induction rs arbitrary: i bb)
  case Nil
  then show ?case by simp
next
  case (Cons ref rest)
  from Cons.prems obtain a where a: "refs f ref = Some a" by auto
  obtain row where row: "bbox_of_mask (T a) = Inr row" using bbox_of_mask_total by blast
  let ?bb = "bb[i := row]"
  from Cons.prems have "\<forall>ref\<in>set rest. refs f ref \<noteq> None" "Suc i + length rest \<le> length ?bb"
    by auto
  from Cons.IH [OF this] obtain rows where
    r: "bboxes_loop f (Suc i) rest ?bb = Inr (take (Suc i) ?bb @ rows @ drop (Suc i + length rest) ?bb)"
    and l: "length rows = length rest"
    and v: "\<forall>k<length rest. \<forall>a. refs f (rest ! k) = Some a \<longrightarrow> bbox_of_mask (T a) = Inr (rows ! k)"
    by blast
  have i: "i < length bb" using Cons.prems by simp
  have t: "take (Suc i) ?bb = take i bb @ [row]"
    using i by (simp add: take_Suc_conv_app_nth)
  have d: "drop (Suc i + length rest) ?bb = drop (i + length (ref # rest)) bb"
    by simp
  have "bboxes_loop f i (ref # rest) bb = Inr (take i bb @ (row # rows) @ drop (i + length (ref # rest)) bb)"
    using a row r t d by (simp add: deref_def)
  moreover have "length (row # rows) = length (ref # rest)" using l by simp
  moreover have "\<forall>k<length (ref # rest). \<forall>a. refs f ((ref # rest) ! k) = Some a
      \<longrightarrow> bbox_of_mask (T a) = Inr ((row # rows) ! k)"
    using a row v by (auto simp: nth_Cons split: nat.splits)
  ultimately show ?case by blast
qed

lemma decode_resolved:
  assumes "\<forall>ref\<in>set (Masks f). refs f ref \<noteq> None"
  shows "\<exists>bboxes. decode junk f = Inr bboxes \<and> length bboxes = length (Masks f)
       \<and> (\<forall>i<length (Masks f). \<forall>a. refs f (Masks f ! i) = Some a \<longrightarrow> bbox_of_mask (T a) = Inr (bboxes ! i))"
proof -
  have "0 + length (Masks f) \<le> length (np_empty junk (length (Masks f)))"
    by (simp add: np_empty_def)
  from bboxes_loop_resolved [OF assms this] show ?thesis
    by (auto simp: decode_def np_empty_def)
qed

lemma bboxes_loop_dangling:
  assumes "\<exists>ref\<in>set rs. refs f ref = None"
  shows "bboxes_loop f i rs bb = Inl ValueError"
  using assms
proof (induction rs arbitrary: i bb)
  case Nil
  then show ?case by simp
next
  case (Cons ref rest)
  show ?case
  proof (cases "refs f ref")
    case None
    then show ?thesis by (simp add: deref_def)
  next
    case (Some a)
    obtain row where row: "bbox_of_mask (T a) = Inr row" using bbox_of_mask_total by blast
    from Some Cons.prems have "\<exists>ref\<in>set rest. refs f ref = None" by auto
    from Cons.IH [OF this] show ?thesis using Some row by (simp add: deref_def)
  qed
qed

lemma decode_error:
  assumes "decode junk f = Inl e"
  shows "e = ValueError \<and> (\<exists>ref\<in>set (Masks f). refs f ref = None)"
proof (cases "\<forall>ref\<in>set (Masks f). refs f ref \<noteq> None")
  case True
  from decode_resolved [OF True, of junk] assms show ?thesis by auto
next
  case False
  then have d: "\<exists>ref\<in>set (Masks f). refs f ref = None" by auto
  from bboxes_loop_dangling [OF d, of 0 "np_empty junk (length (Masks f))"] assms d
  show ?thesis by (simp add: decode_def)
qed

subsection \<open>Claims about the decoder\<close>

text \<open>
  C3. A mask without any nonzero pixel gets exactly the box [0, 0, 0, 0]: the lookup of
  the first and last nonzero column raises, the handler stores the zero row, nothing
  propagates, and the loop goes on with the remaining masks.
\<close>

theorem all_zero_mask_degenerate_box:
  assumes "refs f ref = Some a"
    and "\<forall>r<nrows (T a). \<forall>c<ncols (T a). item (T a) r c = 0"
  shows "bbox_try (T a) = Inl IndexError
       \<and> bbox_of_mask (T a) = Inr [0, 0, 0, 0]
       \<and> bboxes_loop f i (ref # rest) bboxes = bboxes_loop f (Suc i) rest (bboxes[i := [0, 0, 0, 0]])"
  using assms(1) bbox_try_all_zero [OF assms(2)] bbox_of_mask_all_zero [OF assms(2)]
  by (simp add: deref_def)


theorem all_zero_mask_degenerate_box_witness:
  "decode sevens two_masks = Inr [[0, 0, 0, 0], [1, 0, 1, 2]]"
proof -
  let ?a = "of_rows [[0, 0], [0, 0], [0, 0]]"
  have r: "refs two_masks 5 = Some ?a" by (simp add: two_masks_def)
  have z: "\<forall>r<nrows (T ?a). \<forall>c<ncols (T ?a). item (T ?a) r c = 0"
    by (simp add: T_def of_rows_def All_less_Suc numeral_2_eq_2 numeral_3_eq_3)
  have "bbox_of_mask (T (of_rows [[0, 0, 0], [1, 1, 0]])) = Inr [1, 0, 1, 2]"
    by code_simp
  then show ?thesis
    using all_zero_mask_degenerate_box [OF r z, of 0 "[3]" "np_empty sevens 2"]
    by (simp add: decode_def two_masks_def deref_def np_empty_def sevens_def)
qed

subsection \<open>Rounding beyond 24 bits\<close>

lemma bit_length_eq:
  assumes "2 ^ k \<le> n" "n < 2 ^ Suc k"
  shows "bit_length n = Suc k"
proof -
  have "bit_length n \<le> Suc k" using assms(2) by (simp only: bit_length_le)
  moreover have "\<not> bit_length n \<le> k" using assms(1) by (simp only: bit_length_le not_less)
  ultimately show ?thesis by simp
qed

lemma bit_length_25: "2 ^ 24 \<le> n \<Longrightarrow> n < 2 ^ 25 \<Longrightarrow> bit_length n = 25"
  using bit_length_eq [of 24 n] by simp

lemma float32_16777217: "float32 16777217 = 16777216"
proof -
  have "bit_length 16777217 = 25" by (rule bit_length_25) simp_all
  then show ?thesis by (simp add: float32_def float32_nat_def)
qed

lemma float32_16777219: "float32 16777219 = 16777220"
proof -
  have "bit_length 16777219 = 25" by (rule bit_length_25) simp_all
  then show ?thesis by (simp add: float32_def float32_nat_def)
qed

lemma single_pixel_spans: "nonzero_pixels m = [(r, c)] \<Longrightarrow> spans m c c r r"
  by (simp add: spans_def)

text \<open>
  C1 (amended). When every reference of the file resolves, decode returns one box per
  mask, in mask order. For a mask of at most 2^24 = 16777216 rows and columns whose
  nonzero pixels span the columns c0 to c1 and the rows r0 to r1, the box at the index of
  the mask is [c0, r0, c1 - c0 + 1, r1 - r0 + 1], whatever lies inside; a single nonzero
  pixel at row r and column c gives [c, r, 1, 1].
\<close>

theorem decode_index_aligned_boxes:
  assumes "\<forall>ref\<in>set (Masks f). refs f ref \<noteq> None"
  shows "\<exists>bboxes. decode junk f = Inr bboxes \<and> length bboxes = length (Masks f) \<and>
     (\<forall>i<length (Masks f). \<forall>a.
        refs f (Masks f ! i) = Some a \<and> nrows (T a) \<le> 2 ^ 24 \<and> ncols (T a) \<le> 2 ^ 24 \<longrightarrow>
          (\<forall>c0 c1 r0 r1. spans (T a) c0 c1 r0 r1 \<longrightarrow>
             bboxes ! i = [int c0, int r0, int c1 - int c0 + 1, int r1 - int r0 + 1]) \<and>
          (\<forall>r c. nonzero_pixels (T a) = [(r, c)] \<longrightarrow> bboxes ! i = [int c, int r, 1, 1]))"
proof -
  from decode_resolved [OF assms, of junk] obtain bboxes where
    d: "decode junk f = Inr bboxes" and l: "length bboxes = length (Masks f)"
    and v: "\<forall>i<length (Masks f). \<forall>a. refs f (Masks f ! i) = Some a \<longrightarrow> bbox_of_mask (T a) = Inr (bboxes ! i)"
    by blast
  have "bboxes ! i = [int c0, int r0, int c1 - int c0 + 1, int r1 - int r0 + 1]"
    if "i < length (Masks f)" "refs f (Masks f ! i) = Some a"
      "nrows (T a) \<le> 2 ^ 24" "ncols (T a) \<le> 2 ^ 24" "spans (T a) c0 c1 r0 r1"
    for i a c0 c1 r0 r1
  proof -
    from v that(1,2) have "bbox_of_mask (T a) = Inr (bboxes ! i)" by blast
    with bbox_of_mask_spans [OF that(5,4,3)] show ?thesis by simp
  qed
  moreover have "bboxes ! i = [int c, int r, 1, 1]"
    if "i < length (Masks f)" "refs f (Masks f ! i) = Some a"
      "nrows (T a) \<le> 2 ^ 24" "ncols (T a) \<le> 2 ^ 24" "nonzero_pixels (T a) = [(r, c)]"
    for i a r c
  proof -
    from v that(1,2) have "bbox_of_mask (T a) = Inr (bboxes ! i)" by blast
    with bbox_of_mask_spans [OF single_pixel_spans [OF that(5)] that(4,3)] show ?thesis by simp
  qed
  ultimately show ?thesis using d l by blast
qed

theorem decode_index_aligned_boxes_witness:
  "\<exists>bboxes. decode sevens two_masks = Inr bboxes \<and> length bboxes = 2 \<and> bboxes ! 1 = [1, 0, 1, 2]"
proof -
  let ?a = "of_rows [[0, 0, 0], [1, 1, 0]]"
  have h: "\<forall>ref\<in>set (Masks two_masks). refs two_masks ref \<noteq> None"
    by (simp add: two_masks_def)
  have s: "spans (T ?a) 1 1 0 1"
    by (simp add: spans_def nonzero_pixels_def T_def of_rows_def)
  have a: "refs two_masks (Masks two_masks ! 1) = Some ?a \<and> nrows (T ?a) \<le> 2 ^ 24 \<and> ncols (T ?a) \<le> 2 ^ 24"
    by (simp add: two_masks_def T_def of_rows_def)
  have i: "1 < length (Masks two_masks)" by (simp add: two_masks_def)
  from decode_index_aligned_boxes [OF h, of sevens] obtain bboxes where
    d: "decode sevens two_masks = Inr bboxes" and l: "length bboxes = length (Masks two_masks)"
    and v: "\<forall>i<length (Masks two_masks). \<forall>a.
        refs two_masks (Masks two_masks ! i) = Some a \<and> nrows (T a) \<le> 2 ^ 24 \<and> ncols (T a) \<le> 2 ^ 24 \<longrightarrow>
          (\<forall>c0 c1 r0 r1. spans (T a) c0 c1 r0 r1 \<longrightarrow>
             bboxes ! i = [int c0, int r0, int c1 - int c0 + 1, int r1 - int r0 + 1]) \<and>
          (\<forall>r c. nonzero_pixels (T a) = [(r, c)] \<longrightarrow> bboxes ! i = [int c, int r, 1, 1])"
    by blast
  from v i a s have "bboxes ! 1 = [int 1, int 0, int 1 - int 1 + 1, int 1 - int 0 + 1]" by blast
  then have "bboxes ! 1 = [1, 0, 1, 2]" by simp
  with d l show ?thesis by (simp add: two_masks_def)
qed


lemma float32_1: "float32 1 = 1"
  by (simp add: float32_exact)

theorem decode_index_aligned_boxes_counterexample:
  "spans (T tall_mask) 16777217 16777217 0 0
   \<and> decode sevens one_tall_mask = Inr [[16777216, 0, 1, 1]]
   \<and> decode sevens one_tall_mask \<noteq> Inr [[16777217, 0, 16777217 - 16777217 + 1, 0 - 0 + 1]]"
proof -
  have s: "spans (T tall_mask) 16777217 16777217 0 0"
    unfolding spans_iff by (simp add: T_def tall_mask_def)
  have "bbox_of_mask (T tall_mask) = Inr [16777216, 0, 1, 1]"
    using bbox_of_mask_general [OF s] by (simp add: float32_16777217 float32_zero float32_1)
  then have "decode sevens one_tall_mask = Inr [[16777216, 0, 1, 1]]"
    by (simp add: decode_def one_tall_mask_def deref_def np_empty_def sevens_def)
  with s show ?thesis by simp
qed




text \<open>
  C10 (amended). For a mask of at most 2^24 = 16777216 rows and columns, the box
  [left, top, width, height] lies inside the grid of the mask, width is zero exactly when
  height is zero, which happens exactly when the mask has no nonzero pixel, and every
  nonzero pixel lies inside the box.
\<close>

theorem box_within_mask_grid:
  assumes "nrows m \<le> 2 ^ 24" "ncols m \<le> 2 ^ 24"
  shows "\<exists>left top width height.
     bbox_of_mask m = Inr [left, top, width, height] \<and>
     0 \<le> left \<and> 0 \<le> top \<and> left + width \<le> int (ncols m) \<and> top + height \<le> int (nrows m) \<and>
     (width = 0 \<longleftrightarrow> height = 0) \<and> (width = 0 \<longleftrightarrow> nonzero_pixels m = []) \<and>
     (\<forall>(r, c)\<in>set (nonzero_pixels m).
        left \<le> int c \<and> int c \<le> left + width - 1 \<and> top \<le> int r \<and> int r \<le> top + height - 1)"
proof (cases "nonzero_pixels m = []")
  case True
  then have "bbox_of_mask m = Inr [0, 0, 0, 0]"
    by (simp add: nonzero_pixels_empty bbox_of_mask_all_zero)
  with True show ?thesis by simp
next
  case False
  from spans_exist [OF False] obtain c0 c1 r0 r1 where s: "spans m c0 c1 r0 r1" by blast
  from spans_bounds [OF s] have b: "c0 \<le> c1" "c1 < ncols m" "r0 \<le> r1" "r1 < nrows m" by auto
  have box: "bbox_of_mask m = Inr [int c0, int r0, int c1 - int c0 + 1, int r1 - int r0 + 1]"
    by (rule bbox_of_mask_spans [OF s assms(2,1)])
  have inside: "\<forall>(r, c)\<in>set (nonzero_pixels m). c0 \<le> c \<and> c \<le> c1 \<and> r0 \<le> r \<and> r \<le> r1"
    using s by (simp add: spans_def Let_def)
  have "\<forall>(r, c)\<in>set (nonzero_pixels m).
        int c0 \<le> int c \<and> int c \<le> int c0 + (int c1 - int c0 + 1) - 1 \<and>
        int r0 \<le> int r \<and> int r \<le> int r0 + (int r1 - int r0 + 1) - 1"
    using inside by auto
  with box b False show ?thesis by auto
qed

theorem box_within_mask_grid_witness:
  "\<exists>left top width height.
     bbox_of_mask (of_rows [[0, 1, 0], [0, 1, 1]]) = Inr [left, top, width, height] \<and>
     left + width \<le> 3 \<and> top + height \<le> 2 \<and> width \<noteq> 0"
proof -
  let ?m = "of_rows [[0, 1, 0], [0, 1, 1]]"
  have h: "nrows ?m \<le> 2 ^ 24" "ncols ?m \<le> 2 ^ 24" by (simp_all add: of_rows_def)
  have n: "nonzero_pixels ?m = [(0, 1), (1, 1), (1, 2)]"
    by (simp add: nonzero_pixels_def of_rows_def)
  from box_within_mask_grid [OF h] show ?thesis
    by (simp add: n) (auto simp: of_rows_def)
qed


theorem box_within_mask_grid_counterexample:
  "bbox_of_mask wide_mask = Inr [16777220, 0, 1, 1]
   \<and> \<not> (16777220 + 1 \<le> int (ncols wide_mask))
   \<and> (0, 16777219) \<in> set (nonzero_pixels wide_mask) \<and> \<not> (16777220 \<le> int 16777219)"
proof -
  have s: "spans wide_mask 16777219 16777219 0 0"
    unfolding spans_iff by (simp add: wide_mask_def)
  have "bbox_of_mask wide_mask = Inr [16777220, 0, 1, 1]"
    using bbox_of_mask_general [OF s] by (simp add: float32_16777219 float32_zero float32_1)
  moreover have "(0, 16777219) \<in> set (nonzero_pixels wide_mask)"
    unfolding set_nonzero_pixels by (simp add: wide_mask_def)
  ultimately show ?thesis by (simp add: wide_mask_def)
qed

subsection \<open>Directories and destination paths\<close>

lemma mkdirs_eq:
  "mkdirs ds t =
     (if \<exists>q\<in>set ds. \<exists>c. t q = Some (File c) then Inl FileExistsError
      else Inr (\<lambda>q. if q \<in> set ds \<and> t q = None then Some Dir else t q))"
proof (induction ds arbitrary: t)
  case Nil
  show ?case by simp
next
  case (Cons d ds)
  show ?case
  proof (cases "t d")
    case None
    have a: "(t(d \<mapsto> Dir)) q = Some (File c) \<longleftrightarrow> t q = Some (File c)" for q c
      using None by (cases "q = d") simp_all
    have 1: "(\<exists>q\<in>set ds. \<exists>c. (t(d \<mapsto> Dir)) q = Some (File c)) \<longleftrightarrow>
             (\<exists>q\<in>set (d # ds). \<exists>c. t q = Some (File c))"
      unfolding a using None by simp
    have 2: "(\<lambda>q. if q \<in> set ds \<and> (t(d \<mapsto> Dir)) q = None then Some Dir else (t(d \<mapsto> Dir)) q) =
             (\<lambda>q. if q \<in> set (d # ds) \<and> t q = None then Some Dir else t q)"
      using None by (intro ext) auto
    show ?thesis using None by (simp only: mkdirs.simps option.case Cons.IH 1 2)
  next
    case (Some n)
    show ?thesis
    proof (cases n)
      case Dir
      have 1: "(\<exists>q\<in>set ds. \<exists>c. t q = Some (File c)) \<longleftrightarrow>
               (\<exists>q\<in>set (d # ds). \<exists>c. t q = Some (File c))"
        using Some Dir by auto
      have 2: "(\<lambda>q. if q \<in> set ds \<and> t q = None then Some Dir else t q) =
               (\<lambda>q. if q \<in> set (d # ds) \<and> t q = None then Some Dir else t q)"
        using Some Dir by (intro ext) auto
      show ?thesis using Some Dir by (simp only: mkdirs.simps option.case node.case Cons.IH 1 2)
    next
      case (File c)
      with Some show ?thesis by auto
    qed
  qed
qed

lemma makedirs_eq:
  "makedirs p t =
     (if \<exists>q\<in>set (tl (prefixes p)). \<exists>c. t q = Some (File c) then Inl FileExistsError
      else Inr (\<lambda>q. if q \<in> set (tl (prefixes p)) \<and> t q = None then Some Dir else t q))"
  by (simp only: makedirs_def mkdirs_eq)

lemma makedirs_keeps: "makedirs p t = Inr t' \<Longrightarrow> t q \<noteq> None \<Longrightarrow> t' q = t q"
  by (auto simp: makedirs_eq split: if_splits)

lemma makedirs_files: "makedirs p t = Inr t' \<Longrightarrow> t' q = Some (File c) \<longleftrightarrow> t q = Some (File c)"
  by (auto simp: makedirs_eq split: if_splits)

lemma makedirs_self:
  assumes "makedirs p t = Inr t'" "p \<noteq> []"
  shows "t' p = Some Dir"
proof -
  have "p \<in> set (tl (prefixes p))" using assms(2) by (cases p) auto
  with assms(1) show ?thesis
    by (cases "t p") (auto simp: makedirs_eq split: if_splits node.splits, metis node.exhaust)
qed

lemma decode_length:
  assumes "decode junk f = Inr bboxes"
  shows "length bboxes = length (Masks f)"
proof (cases "\<forall>ref\<in>set (Masks f). refs f ref \<noteq> None")
  case True
  from decode_resolved [OF True, of junk] assms show ?thesis by auto
next
  case False
  then have "\<exists>ref\<in>set (Masks f). refs f ref = None" by auto
  from bboxes_loop_dangling [OF this, of 0 "np_empty junk (length (Masks f))"] assms
  show ?thesis by (simp add: decode_def)
qed

lemma dst_file_path_eq:
  assumes "length ext = 3"
  shows "dst_file_path (anc @ [d, g, name @ ''.'' @ ext]) = Inr (anc @ [''BBoxes'', name @ ''.npy''])"
  using assms by (simp add: dst_file_path_def basename_def parents_def)

subsection \<open>Claims about main and the bounding-box files\<close>

text \<open>
  C9. Without DATA_ROOT in the environment the script prints its message and leaves with
  exit status 1, whatever the pool and the file search would do: nothing is searched,
  converted or written. With DATA_ROOT set, the script does not leave through that exit.
\<close>

theorem missing_data_root_exits_first:
  "(environ ''DATA_ROOT'' = None \<longrightarrow>
      main pool_map glob junk environ w =
        (SystemExit 1,
         print_line ''Set the DATA_ROOT environment variable to the parent dir of the h36m directory.'' w)
      \<and> fs (snd (main pool_map glob junk environ w)) = fs w
      \<and> written (snd (main pool_map glob junk environ w)) = written w)
   \<and> (environ ''DATA_ROOT'' \<noteq> None \<longrightarrow> (\<forall>n. fst (main pool_map glob junk environ w) \<noteq> SystemExit n))"
proof -
  have "\<forall>n. fst (main pool_map glob junk environ w) \<noteq> SystemExit n"
    if "environ ''DATA_ROOT'' \<noteq> None"
  proof -
    from that obtain data_root where "environ ''DATA_ROOT'' = Some data_root" by auto
    then show ?thesis
      by (auto simp: main_def Let_def split: prod.splits option.splits)
  qed
  then show ?thesis by (auto simp: main_def print_line_def)
qed


theorem missing_data_root_exits_first_witness:
  "main sequential_map no_matches sevens Map.empty fresh_world =
     (SystemExit 1,
      fresh_world\<lparr>stdout := [''Set the DATA_ROOT environment variable to the parent dir of the h36m directory.'']\<rparr>)
   \<and> fst (main sequential_map no_matches sevens [''DATA_ROOT'' \<mapsto> ''/data''] fresh_world) \<noteq> SystemExit 1"
  using missing_data_root_exits_first [of Map.empty sequential_map no_matches sevens fresh_world]
    missing_data_root_exits_first [of "[''DATA_ROOT'' \<mapsto> ''/data'']" sequential_map no_matches sevens fresh_world]
  by (simp add: print_line_def fresh_world_def)

lemma not_in_shorter_prefixes: "p @ [a, b] \<notin> set (prefixes (p @ [c]))"
proof
  assume "p @ [a, b] \<in> set (prefixes (p @ [c]))"
  then have "prefix (p @ [a, b]) (p @ [c])" by (simp only: in_set_prefixes)
  then have "length (p @ [a, b]) \<le> length (p @ [c])" by (rule prefix_length_le)
  then show False by simp
qed

text \<open>
  C6 (amended). For an input path P/d/ground_truth_bb/name.ext with an extension of three
  characters, where P is the second ancestor of the file's directory (the parent of the
  directory d that holds ground_truth_bb), the array is written to P/BBoxes/name.npy: the
  directory P/BBoxes exists afterwards, and the file holds the boxes whatever was at that
  path before.
\<close>

theorem bboxes_saved_under_second_ancestor:
  assumes "length ext = 3"
    and "src = anc @ [d, ''ground_truth_bb'', name @ ''.'' @ ext]"
    and "dst = anc @ [''BBoxes'', name @ ''.npy'']"
    and "h5py_File (fs w) src = Inr f" and "decode junk f = Inr bboxes"
    and "\<forall>q\<in>set (tl (prefixes (anc @ [''BBoxes'']))). \<forall>c. fs w q \<noteq> Some (File c)"
    and "fs w dst \<noteq> Some Dir"
  shows "dst_file_path src = Inr dst \<and>
    (\<exists>w'. extract_bounding_boxes junk src w = (None, w') \<and>
          fs w' (anc @ [''BBoxes'']) = Some Dir \<and>
          fs w' dst = Some (File (Npy bboxes)) \<and>
          written w' = written w @ [dst])"
proof -
  let ?dir = "anc @ [''BBoxes'']"
  have p: "dst_file_path src = Inr dst"
    unfolding assms(2,3) by (rule dst_file_path_eq [OF assms(1)])
  have b: "butlast dst = ?dir" by (simp add: assms(3) butlast_append)
  define t where "t = (\<lambda>q. if q \<in> set (tl (prefixes ?dir)) \<and> fs w q = None then Some Dir else fs w q)"
  have m: "makedirs ?dir (fs w) = Inr t"
    using assms(6) by (simp add: makedirs_eq t_def)
  have d: "t ?dir = Some Dir" by (rule makedirs_self [OF m]) simp
  have "dst \<notin> set (prefixes ?dir)" unfolding assms(3) by (rule not_in_shorter_prefixes)
  then have "dst \<notin> set (tl (prefixes ?dir))" by (metis list.sel(2) list.set_sel(2))
  then have "t dst = fs w dst" by (simp add: t_def)
  with assms(7) have n: "t dst \<noteq> Some Dir" by simp
  have ne: "?dir \<noteq> dst" by (simp add: assms(3))
  let ?w1 = "print_line (''Processing '' @ path_str src) w"
  let ?w' = "?w1\<lparr>fs := t(dst \<mapsto> File (Npy bboxes)), written := written w @ [dst]\<rparr>"
  have s: "np_save dst bboxes (?w1\<lparr>fs := t\<rparr>) = (None, ?w')"
    using n by (cases "t dst") (auto simp: np_save_def print_line_def split: node.splits)
  have "extract_bounding_boxes junk src w = (None, ?w')"
    using assms(4,5) p b m s by (simp add: extract_bounding_boxes_def Let_def print_line_def)
  moreover have "fs ?w' ?dir = Some Dir" using d ne by simp
  moreover have "fs ?w' dst = Some (File (Npy bboxes))" by simp
  moreover have "written ?w' = written w @ [dst]" by simp
  ultimately show ?thesis using p by blast
qed

theorem bboxes_saved_under_second_ancestor_counterexample:
  "dst_file_path [''h36m'', ''S1'', ''MySegmentsMat'', ''ground_truth_bb'', ''Directions.mat'']
     = Inr [''h36m'', ''S1'', ''BBoxes'', ''Directions.npy'']
   \<and> dst_file_path [''h36m'', ''S1'', ''MySegmentsMat'', ''ground_truth_bb'', ''Directions.mat'']
     \<noteq> Inr [''h36m'', ''S1'', ''MySegmentsMat'', ''BBoxes'', ''Directions.npy'']"
  by (simp add: dst_file_path_def basename_def parents_def)


lemma decode_two_masks: "decode sevens two_masks = Inr [[0, 0, 0, 0], [1, 0, 1, 2]]"
proof -
  have 1: "bbox_of_mask (T (of_rows [[0, 0], [0, 0], [0, 0]])) = Inr [0, 0, 0, 0]"
    by (rule bbox_of_mask_all_zero) (simp add: T_def of_rows_def All_less_Suc numeral_2_eq_2 numeral_3_eq_3)
  have "spans (T (of_rows [[0, 0, 0], [1, 1, 0]])) 1 1 0 1"
    by (simp add: spans_def nonzero_pixels_def T_def of_rows_def)
  from bbox_of_mask_spans [OF this]
  have 2: "bbox_of_mask (T (of_rows [[0, 0, 0], [1, 1, 0]])) = Inr [1, 0, 1, 2]"
    by (simp add: T_def of_rows_def)
  show ?thesis
    by (simp add: decode_def two_masks_def deref_def np_empty_def sevens_def 1 2)
qed

lemma decode_dangling_masks: "decode sevens dangling_masks = Inl ValueError"
  by (simp add: decode_def dangling_masks_def deref_def)

lemma h5py_File_bbox_world: "h5py_File (fs (bbox_world f)) mat_path = Inr f"
  by (simp add: h5py_File_def bbox_world_def mat_path_def npy_path_def)

theorem bboxes_saved_under_second_ancestor_witness:
  "\<exists>w'. extract_bounding_boxes sevens mat_path (bbox_world two_masks) = (None, w') \<and>
        fs (bbox_world two_masks) npy_path = Some (File (Npy [[9, 9, 9, 9]])) \<and>
        fs w' npy_path = Some (File (Npy [[0, 0, 0, 0], [1, 0, 1, 2]])) \<and>
        written w' = [npy_path]"
proof -
  have 1: "length ''mat'' = 3" by simp
  have 2: "mat_path = [''h36m'', ''S1''] @ [''MySegmentsMat'', ''ground_truth_bb'', ''Directions'' @ ''.'' @ ''mat'']"
    by (simp add: mat_path_def)
  have 3: "npy_path = [''h36m'', ''S1''] @ [''BBoxes'', ''Directions'' @ ''.npy'']"
    by (simp add: npy_path_def)
  have 6: "\<forall>q\<in>set (tl (prefixes ([''h36m'', ''S1''] @ [''BBoxes'']))).
             \<forall>c. fs (bbox_world two_masks) q \<noteq> Some (File c)"
    by (simp add: bbox_world_def mat_path_def npy_path_def)
  have 7: "fs (bbox_world two_masks) npy_path \<noteq> Some Dir"
    by (simp add: bbox_world_def)
  have 8: "fs (bbox_world two_masks) npy_path = Some (File (Npy [[9, 9, 9, 9]]))"
    by (simp add: bbox_world_def)
  have 9: "written (bbox_world two_masks) = []" by (simp add: bbox_world_def)
  from bboxes_saved_under_second_ancestor [OF 1 2 3 h5py_File_bbox_world decode_two_masks 6 7] 8 9
  show ?thesis by auto
qed

text \<open>
  C7. When opening the file or decoding its masks raises, the function leaves at once:
  the file system and the list of written files are as before. A file that is new or
  changed after the call holds the complete array of a decoding that returned, one box
  per mask; and the only write is the one of that array.
\<close>

lemma extract_bounding_boxes_cases:
  fixes junk src w
  defines "w1 \<equiv> print_line (''Processing '' @ path_str src) w"
  defines "R \<equiv> extract_bounding_boxes junk src w"
  shows "(\<exists>e. R = (Some e, w1)) \<or>
    (\<exists>f bboxes dst t. h5py_File (fs w) src = Inr f \<and> decode junk f = Inr bboxes \<and>
        dst_file_path src = Inr dst \<and> makedirs (butlast dst) (fs w) = Inr t \<and>
        (R = (Some IsADirectoryError, w1\<lparr>fs := t\<rparr>) \<or>
         R = (None, w1\<lparr>fs := t(dst \<mapsto> File (Npy bboxes)), written := written w @ [dst]\<rparr>)))"
proof (cases "h5py_File (fs w) src")
  case (Inl e)
  then show ?thesis by (simp add: R_def w1_def extract_bounding_boxes_def Let_def print_line_def)
next
  case f: (Inr f)
  show ?thesis
  proof (cases "decode junk f")
    case (Inl e)
    with f show ?thesis by (simp add: R_def w1_def extract_bounding_boxes_def Let_def print_line_def)
  next
    case b: (Inr bboxes)
    show ?thesis
    proof (cases "dst_file_path src")
      case (Inl e)
      with f b show ?thesis
        by (simp add: R_def w1_def extract_bounding_boxes_def Let_def print_line_def)
    next
      case d: (Inr dst)
      show ?thesis
      proof (cases "makedirs (butlast dst) (fs w)")
        case (Inl e)
        with f b d show ?thesis
          by (simp add: R_def w1_def extract_bounding_boxes_def Let_def print_line_def)
      next
        case t: (Inr t)
        have "R = np_save dst bboxes (w1\<lparr>fs := t\<rparr>)"
          using f b d t by (simp add: R_def w1_def extract_bounding_boxes_def Let_def print_line_def)
        then have "R = (Some IsADirectoryError, w1\<lparr>fs := t\<rparr>) \<or>
           R = (None, w1\<lparr>fs := t(dst \<mapsto> File (Npy bboxes)), written := written w @ [dst]\<rparr>)"
          by (auto simp: np_save_def w1_def print_line_def split: option.splits node.splits)
        with f b d t show ?thesis by blast
      qed
    qed
  qed
qed

theorem no_partial_bbox_output:
  "(h5py_File (fs w) src = Inr f \<and> decode junk f = Inl e \<longrightarrow>
      extract_bounding_boxes junk src w = (Some e, print_line (''Processing '' @ path_str src) w)
      \<and> fs (snd (extract_bounding_boxes junk src w)) = fs w
      \<and> written (snd (extract_bounding_boxes junk src w)) = written w)
   \<and> (\<forall>p c. fs (snd (extract_bounding_boxes junk src w)) p = Some (File c) \<and> fs w p \<noteq> Some (File c) \<longrightarrow>
        (\<exists>f bboxes. h5py_File (fs w) src = Inr f \<and> decode junk f = Inr bboxes \<and>
           length bboxes = length (Masks f) \<and> c = Npy bboxes))
   \<and> (written (snd (extract_bounding_boxes junk src w)) \<noteq> written w \<longrightarrow>
        (\<exists>f bboxes dst. h5py_File (fs w) src = Inr f \<and> decode junk f = Inr bboxes \<and>
           length bboxes = length (Masks f) \<and> dst_file_path src = Inr dst \<and>
           written (snd (extract_bounding_boxes junk src w)) = written w @ [dst] \<and>
           fs (snd (extract_bounding_boxes junk src w)) dst = Some (File (Npy bboxes))))"
proof -
  let ?w1 = "print_line (''Processing '' @ path_str src) w"
  let ?R = "extract_bounding_boxes junk src w"
  have w1: "fs ?w1 = fs w" "written ?w1 = written w" by (simp_all add: print_line_def)
  have A: "?R = (Some e, ?w1) \<and> fs (snd ?R) = fs w \<and> written (snd ?R) = written w"
    if "h5py_File (fs w) src = Inr f" "decode junk f = Inl e"
    using that by (simp add: extract_bounding_boxes_def Let_def print_line_def)
  have B: "\<exists>f bboxes. h5py_File (fs w) src = Inr f \<and> decode junk f = Inr bboxes \<and>
           length bboxes = length (Masks f) \<and> c = Npy bboxes"
    if p: "fs (snd ?R) p = Some (File c)" and q: "fs w p \<noteq> Some (File c)" for p c
    using extract_bounding_boxes_cases [of junk src w]
  proof (elim disjE exE conjE)
    fix e assume "?R = (Some e, ?w1)"
    with p q w1 show ?thesis by simp
  next
    fix f bboxes dst t
    assume "makedirs (butlast dst) (fs w) = Inr t" "?R = (Some IsADirectoryError, ?w1\<lparr>fs := t\<rparr>)"
    with p q makedirs_files [of "butlast dst" "fs w" t p c] show ?thesis by simp
  next
    fix f bboxes dst t
    assume f: "h5py_File (fs w) src = Inr f" and b: "decode junk f = Inr bboxes"
      and t: "makedirs (butlast dst) (fs w) = Inr t"
      and r: "?R = (None, ?w1\<lparr>fs := t(dst \<mapsto> File (Npy bboxes)), written := written w @ [dst]\<rparr>)"
    show ?thesis
    proof (cases "p = dst")
      case True
      with p r have "c = Npy bboxes" by simp
      with f b decode_length [OF b] show ?thesis by blast
    next
      case False
      with p r have "t p = Some (File c)" by simp
      with q makedirs_files [OF t, of p c] show ?thesis by simp
    qed
  qed
  have C: "\<exists>f bboxes dst. h5py_File (fs w) src = Inr f \<and> decode junk f = Inr bboxes \<and>
           length bboxes = length (Masks f) \<and> dst_file_path src = Inr dst \<and>
           written (snd ?R) = written w @ [dst] \<and> fs (snd ?R) dst = Some (File (Npy bboxes))"
    if n: "written (snd ?R) \<noteq> written w"
    using extract_bounding_boxes_cases [of junk src w]
  proof (elim disjE exE conjE)
    fix e assume "?R = (Some e, ?w1)"
    with n w1 show ?thesis by simp
  next
    fix f bboxes dst t
    assume "?R = (Some IsADirectoryError, ?w1\<lparr>fs := t\<rparr>)"
    with n w1 show ?thesis by simp
  next
    fix f bboxes dst t
    assume f: "h5py_File (fs w) src = Inr f" and b: "decode junk f = Inr bboxes"
      and d: "dst_file_path src = Inr dst"
      and r: "?R = (None, ?w1\<lparr>fs := t(dst \<mapsto> File (Npy bboxes)), written := written w @ [dst]\<rparr>)"
    from r have "written (snd ?R) = written w @ [dst]" "fs (snd ?R) dst = Some (File (Npy bboxes))"
      by simp_all
    with f b d decode_length [OF b] show ?thesis by blast
  qed
  from A B C show ?thesis by blast
qed

theorem no_partial_bbox_output_witness:
  "extract_bounding_boxes sevens mat_path (bbox_world dangling_masks) =
     (Some ValueError,
      print_line ''Processing h36m/S1/MySegmentsMat/ground_truth_bb/Directions.mat'' (bbox_world dangling_masks))
   \<and> fs (snd (extract_bounding_boxes sevens mat_path (bbox_world dangling_masks))) npy_path =
       Some (File (Npy [[9, 9, 9, 9]]))
   \<and> written (snd (extract_bounding_boxes sevens mat_path (bbox_world dangling_masks))) = []"
proof -
  have s: "''Processing '' @ path_str mat_path = ''Processing h36m/S1/MySegmentsMat/ground_truth_bb/Directions.mat''"
    by (simp add: mat_path_def)
  have o: "fs (bbox_world dangling_masks) npy_path = Some (File (Npy [[9, 9, 9, 9]]))"
    "written (bbox_world dangling_masks) = []"
    by (simp_all add: bbox_world_def)
  let ?W = "bbox_world dangling_masks"
  let ?R = "extract_bounding_boxes sevens mat_path ?W"
  from no_partial_bbox_output [of ?W mat_path dangling_masks sevens ValueError]
    h5py_File_bbox_world [of dangling_masks] decode_dangling_masks
  have "?R = (Some ValueError, print_line (''Processing '' @ path_str mat_path) ?W)
      \<and> fs (snd ?R) = fs ?W \<and> written (snd ?R) = written ?W"
    by blast
  then have a: "?R = (Some ValueError, print_line (''Processing '' @ path_str mat_path) ?W)"
    and b: "fs (snd ?R) = fs ?W" and c: "written (snd ?R) = written ?W"
    by blast+
  show ?thesis
    unfolding b c using a o by (simp only: s simp_thms)
qed

end
